theory Spec2Isabelle
  imports Main
begin

section \<open>Data model\<close>

text \<open>
  The server keeps its users in the collection behind the Mongoose model \<open>User\<close>
  (\<open>userSchema\<close>: \<open>name\<close> and \<open>password\<close> required strings, \<open>jobTitle\<close> an optional
  string). A token carries the object \<open>{ name, password }\<close>. The token payload is a record,
  and a user document extends it by the job title, so \<open>name\<close> and \<open>password\<close> read both.
\<close>

record payload =
  name :: string
  password :: string

record user = payload +
  jobTitle :: "string option"

text \<open>
  The collection in its natural order: \<open>findOne\<close> returns the first document that matches,
  a new document goes to the end. The schema declares no unique index, so the list may hold
  several documents with one name.
\<close>

type_synonym store = "user list"

text \<open>
  What the process reads from its environment: \<open>process.env.SECRET\<close>, and the keyed digest
  the token library signs with. The digest is a parameter: every theorem below holds for
  each function put there.
\<close>

record env =
  SECRET :: string
  HS256 :: "string \<Rightarrow> string \<Rightarrow> string"

datatype error =
    No_token_supplied
  | Not_enough_or_too_many_segments
  | SyntaxError
  | Algorithm_not_supported
  | Signature_verification_failed
  | ValidationError

text \<open>
  What a handler answers: one of the views \<open>failure\<close>, \<open>success\<close>, \<open>status\<close> with the
  values it is rendered with, or the redirect of \<open>/modify\<close>. \<open>/register\<close> has no
  \<open>try\<close>; a rejected \<open>save\<close> leaves it without an answer, which is \<open>Unhandled\<close>.
\<close>

datatype response =
    Failure string
  | Success string "string option"
  | Status string string "string option" string
  | Redirect string
  | Unhandled error

text \<open>
  The \<open>confirm\<close> field of \<open>/delete\<close> arrives from a form or from JSON; \<open>!confirm\<close>
  tests it the way JavaScript does.
\<close>

datatype jsvalue = JSUndefined | JSNull | JSBoolean bool | JSString string

fun truthy :: "jsvalue \<Rightarrow> bool" where
  "truthy JSUndefined = False"
| "truthy JSNull = False"
| "truthy (JSBoolean b) = b"
| "truthy (JSString s) = (s \<noteq> [])"

section \<open>Token codec\<close>

text \<open>
  Modelled from the spec: the token codec. \<open>encodeToken\<close> and \<open>decodeToken\<close> hand their
  arguments to \<open>jwt.encode\<close> and \<open>jwt.decode\<close> of the package \<open>jwt-simple\<close>, which is
  not part of the sources. The spec asks of it: encoding is deterministic, signs the claims
  with the process-wide secret and yields an opaque string that can travel as a query
  parameter; decoding fails when the signature does not verify or when the structure is
  malformed, and checks neither the store nor an expiry. The model gives it the compact form
  of a JSON Web Token: three base64url segments joined by dots, the header
  \<open>{"typ":"JWT","alg":"HS256"}\<close>, the payload as JSON text, and the digest of the first two
  segments under the secret. Strings are lists of bytes. Decoding accepts the JSON texts in
  the form the encoder writes them (keys in that order, no white space) and rejects the rest.
  Encoding never fails, as in the spec: the secret is taken to be set, as the README asks.
\<close>

definition base64url_alphabet :: string where
  "base64url_alphabet = ''ABCDEFGHIJKLMNOPQRSTUVWXYZabcdefghijklmnopqrstuvwxyz0123456789-_''"

definition b64char :: "nat \<Rightarrow> char" where
  "b64char n = base64url_alphabet ! (n mod 64)"

fun index_of :: "'a \<Rightarrow> 'a list \<Rightarrow> nat option" where
  "index_of x [] = None"
| "index_of x (y # ys) = (if x = y then Some 0 else map_option Suc (index_of x ys))"

definition b64val :: "char \<Rightarrow> nat option" where
  "b64val c = index_of c base64url_alphabet"

text \<open>Three bytes become four characters; the padding \<open>=\<close> of a short last group is dropped.\<close>

fun base64urlEncode :: "string \<Rightarrow> string" where
  "base64urlEncode [] = []"
| "base64urlEncode [a] =
     (let x = (of_char a :: nat) in [b64char (x div 4), b64char ((x mod 4) * 16)])"
| "base64urlEncode [a, b] =
     (let x = (of_char a :: nat); y = (of_char b :: nat)
      in [b64char (x div 4), b64char ((x mod 4) * 16 + y div 16), b64char ((y mod 16) * 4)])"
| "base64urlEncode (a # b # c # rest) =
     (let x = (of_char a :: nat); y = (of_char b :: nat); z = (of_char c :: nat)
      in [b64char (x div 4), b64char ((x mod 4) * 16 + y div 16),
          b64char ((y mod 16) * 4 + z div 64), b64char (z mod 64)] @ base64urlEncode rest)"

fun base64urlDecode :: "string \<Rightarrow> string option" where
  "base64urlDecode [] = Some []"
| "base64urlDecode [p] = None"
| "base64urlDecode [p, q] =
     (case (b64val p, b64val q) of
        (Some i, Some j) \<Rightarrow> Some [char_of (i * 4 + j div 16)]
      | _ \<Rightarrow> None)"
| "base64urlDecode [p, q, r] =
     (case (b64val p, b64val q, b64val r) of
        (Some i, Some j, Some k) \<Rightarrow>
          Some [char_of (i * 4 + j div 16), char_of ((j mod 16) * 16 + k div 4)]
      | _ \<Rightarrow> None)"
| "base64urlDecode (p # q # r # s # rest) =
     (case (b64val p, b64val q, b64val r, b64val s) of
        (Some i, Some j, Some k, Some l) \<Rightarrow>
          map_option
            (\<lambda>bytes. char_of (i * 4 + j div 16) # char_of ((j mod 16) * 16 + k div 4)
                      # char_of ((k mod 4) * 64 + l) # bytes)
            (base64urlDecode rest)
      | _ \<Rightarrow> None)"

text \<open>
  JSON text of a string, as \<open>JSON.stringify\<close> writes it: the double quote (0x22) and the
  backslash (0x5C) are escaped, a control character gets its short escape or \<open>\u00XX\<close>.
\<close>

definition hex_lower :: string where
  "hex_lower = ''0123456789abcdef''"

definition hex_upper :: string where
  "hex_upper = ''0123456789ABCDEF''"

definition hexdigit :: "nat \<Rightarrow> char" where
  "hexdigit n = hex_lower ! (n mod 16)"

definition hexval :: "char \<Rightarrow> nat option" where
  "hexval c = (case index_of c hex_lower of Some n \<Rightarrow> Some n | None \<Rightarrow> index_of c hex_upper)"

definition escape :: "char \<Rightarrow> string" where
  "escape c =
     (if c = CHR 0x22 then [CHR 0x5C, CHR 0x22]
      else if c = CHR 0x5C then [CHR 0x5C, CHR 0x5C]
      else if c = CHR 0x08 then [CHR 0x5C, CHR ''b'']
      else if c = CHR 0x0C then [CHR 0x5C, CHR ''f'']
      else if c = CHR 0x0A then [CHR 0x5C, CHR ''n'']
      else if c = CHR 0x0D then [CHR 0x5C, CHR ''r'']
      else if c = CHR 0x09 then [CHR 0x5C, CHR ''t'']
      else if (of_char c :: nat) < 32 then
        [CHR 0x5C, CHR ''u'', CHR ''0'', CHR ''0'',
         hexdigit (of_char c div 16), hexdigit (of_char c mod 16)]
      else [c])"

definition unescape :: "char \<Rightarrow> char option" where
  "unescape e =
     (if e = CHR 0x22 then Some (CHR 0x22)
      else if e = CHR 0x5C then Some (CHR 0x5C)
      else if e = CHR ''/'' then Some (CHR ''/'')
      else if e = CHR ''b'' then Some (CHR 0x08)
      else if e = CHR ''f'' then Some (CHR 0x0C)
      else if e = CHR ''n'' then Some (CHR 0x0A)
      else if e = CHR ''r'' then Some (CHR 0x0D)
      else if e = CHR ''t'' then Some (CHR 0x09)
      else None)"

definition quote :: "string \<Rightarrow> string" where
  "quote s = CHR 0x22 # concat (map escape s) @ [CHR 0x22]"

text \<open>
  Reads a JSON string after its opening quote: the value and what follows the closing
  quote. A raw control character, an unknown escape and a \<open>\u\<close> escape beyond ASCII are rejected.
\<close>

fun unquote :: "string \<Rightarrow> (string \<times> string) option" where
  "unquote [] = None"
| "unquote (c # cs) =
     (if c = CHR 0x22 then Some ([], cs)
      else if c = CHR 0x5C then
        (case cs of
           [] \<Rightarrow> None
         | e # es \<Rightarrow>
             if e = CHR ''u'' then
               (case es of
                  h1 # h2 # h3 # h4 # rest \<Rightarrow>
                    (case (hexval h1, hexval h2, hexval h3, hexval h4) of
                       (Some d1, Some d2, Some d3, Some d4) \<Rightarrow>
                         (let v = ((d1 * 16 + d2) * 16 + d3) * 16 + d4
                          in if v < 128
                             then map_option (apfst (Cons (char_of v))) (unquote rest)
                             else None)
                     | _ \<Rightarrow> None)
                | _ \<Rightarrow> None)
             else
               (case unescape e of
                  Some ch \<Rightarrow> map_option (apfst (Cons ch)) (unquote es)
                | None \<Rightarrow> None))
      else if (of_char c :: nat) < 32 then None
      else map_option (apfst (Cons c)) (unquote cs))"

fun expect :: "string \<Rightarrow> string \<Rightarrow> string option" where
  "expect [] ys = Some ys"
| "expect (x # xs) [] = None"
| "expect (x # xs) (y # ys) = (if x = y then expect xs ys else None)"

definition stringify_payload :: "payload \<Rightarrow> string" where
  "stringify_payload p =
     ''{'' @ quote ''name'' @ '':'' @ quote (name p) @ '','' @
     quote ''password'' @ '':'' @ quote (password p) @ ''}''"

definition parse_payload :: "string \<Rightarrow> payload option" where
  "parse_payload s =
     (case expect (''{'' @ quote ''name'' @ '':'' @ [CHR 0x22]) s of
        None \<Rightarrow> None
      | Some r1 \<Rightarrow>
          (case unquote r1 of
             None \<Rightarrow> None
           | Some (n, r2) \<Rightarrow>
               (case expect ('','' @ quote ''password'' @ '':'' @ [CHR 0x22]) r2 of
                  None \<Rightarrow> None
                | Some r3 \<Rightarrow>
                    (case unquote r3 of
                       None \<Rightarrow> None
                     | Some (p, r4) \<Rightarrow>
                         if r4 = ''}'' then Some \<lparr>name = n, password = p\<rparr> else None))))"

definition stringify_header :: "string \<Rightarrow> string" where
  "stringify_header alg =
     ''{'' @ quote ''typ'' @ '':'' @ quote ''JWT'' @ '','' @ quote ''alg'' @ '':'' @ quote alg @ ''}''"

definition parse_header :: "string \<Rightarrow> string option" where
  "parse_header s =
     (case expect (''{'' @ quote ''typ'' @ '':'' @ quote ''JWT'' @ '','' @ quote ''alg'' @ '':'' @ [CHR 0x22]) s of
        None \<Rightarrow> None
      | Some r1 \<Rightarrow>
          (case unquote r1 of
             None \<Rightarrow> None
           | Some (alg, r2) \<Rightarrow> if r2 = ''}'' then Some alg else None))"

text \<open>\<open>token.split('.')\<close> and \<open>segments.join('.')\<close>.\<close>

fun js_split :: "char \<Rightarrow> string \<Rightarrow> string list" where
  "js_split sep [] = [[]]"
| "js_split sep (c # cs) =
     (if c = sep then [] # js_split sep cs
      else (case js_split sep cs of [] \<Rightarrow> [[c]] | s # ss \<Rightarrow> (c # s) # ss))"

fun js_join :: "string \<Rightarrow> string list \<Rightarrow> string" where
  "js_join sep [] = []"
| "js_join sep [s] = s"
| "js_join sep (s # t # ss) = s @ sep @ js_join sep (t # ss)"

definition sign :: "(string \<Rightarrow> string \<Rightarrow> string) \<Rightarrow> string \<Rightarrow> string \<Rightarrow> string" where
  "sign hmac input key = base64urlEncode (hmac key input)"

text \<open>
  Modelled from the spec: \<open>jwt.encode(payload, key)\<close> of \<open>jwt-simple\<close>, which signs the
  claims with the key and gives the three segments joined by dots.
\<close>

definition jwt_encode :: "(string \<Rightarrow> string \<Rightarrow> string) \<Rightarrow> payload \<Rightarrow> string \<Rightarrow> string" where
  "jwt_encode hmac payload key =
     (let segments = [base64urlEncode (stringify_header ''HS256''),
                      base64urlEncode (stringify_payload payload)];
          segments = segments @ [sign hmac (js_join ''.'' segments) key]
      in js_join ''.'' segments)"

text \<open>
  Modelled from the spec: \<open>jwt.decode(token, key)\<close> of \<open>jwt-simple\<close>, which throws when
  the token has not three segments, when a segment is malformed and when the signature does
  not verify, and otherwise returns the payload.
\<close>

definition jwt_decode :: "(string \<Rightarrow> string \<Rightarrow> string) \<Rightarrow> string \<Rightarrow> string \<Rightarrow> error + payload" where
  "jwt_decode hmac token key =
     (if token = [] then Inl No_token_supplied
      else
        (case js_split (CHR ''.'') token of
           [headerSeg, payloadSeg, signatureSeg] \<Rightarrow>
             (case Option.bind (base64urlDecode headerSeg) parse_header of
                None \<Rightarrow> Inl SyntaxError
              | Some alg \<Rightarrow>
                  (case Option.bind (base64urlDecode payloadSeg) parse_payload of
                     None \<Rightarrow> Inl SyntaxError
                   | Some payload \<Rightarrow>
                       if alg \<noteq> ''HS256'' then Inl Algorithm_not_supported
                       else if signatureSeg \<noteq> sign hmac (js_join ''.'' [headerSeg, payloadSeg]) key
                         then Inl Signature_verification_failed
                       else Inr payload))
         | _ \<Rightarrow> Inl Not_enough_or_too_many_segments))"

text \<open>The two helpers of the server, with \<open>secret\<close> read from the environment.\<close>

definition encodeToken :: "env \<Rightarrow> payload \<Rightarrow> string" where
  "encodeToken env payload = jwt_encode (HS256 env) payload (SECRET env)"

definition decodeToken :: "env \<Rightarrow> string \<Rightarrow> error + payload" where
  "decodeToken env token = jwt_decode (HS256 env) token (SECRET env)"

section \<open>The collection\<close>

text \<open>
  \<open>required: true\<close> on a string path refuses the empty string as well as a missing
  value; \<open>save\<close> validates the document before it writes.
\<close>

definition validate :: "user \<Rightarrow> bool" where
  "validate doc = (name doc \<noteq> [] \<and> password doc \<noteq> [])"

text \<open>
  \<open>User.findOne(filter)\<close>: the first document that satisfies the filter, together with the
  documents before and after it. That context stands for the \<open>_id\<close> by which \<open>save\<close>
  later finds the document again.
\<close>

definition findOne :: "(user \<Rightarrow> bool) \<Rightarrow> store \<Rightarrow> (store \<times> user \<times> store) option" where
  "findOne cond s = List.extract cond s"

text \<open>\<open>doc.save()\<close>: a new document is one with nothing after it.\<close>

definition save :: "store \<times> user \<times> store \<Rightarrow> error + store" where
  "save d = (case d of (before, doc, after) \<Rightarrow>
     if validate doc then Inr (before @ doc # after) else Inl ValidationError)"

definition findOneAndDelete :: "(user \<Rightarrow> bool) \<Rightarrow> store \<Rightarrow> user option \<times> store" where
  "findOneAndDelete cond s =
     (case List.extract cond s of
        None \<Rightarrow> (None, s)
      | Some (before, doc, after) \<Rightarrow> (Some doc, before @ after))"

section \<open>The routes\<close>

text \<open>
  Every handler takes the collection and returns its answer with the collection it leaves.
  The fields of the request body are strings; an optional field is \<open>None\<close> when the
  request does not carry it.
\<close>

text \<open>
  \<open>/auth\<close> puts \<open>username\<close> and \<open>password\<close> into the filter of \<open>User.findOne\<close> as
  they come out of \<open>req.body\<close>. The body parsers (\<open>express.urlencoded\<close> with
  \<open>extended: true\<close>, \<open>express.json\<close>) deliver a string, nothing, or an object, and an
  object in a filter is a set of query operators. On a string path each such value stands
  for a condition on the stored string: a string for equality with it, an operator object
  for the predicate its operators express, a missing field for \<open>null\<close>, which no stored
  string equals.
\<close>

datatype field = Missing | Text string | Operators "string \<Rightarrow> bool"

fun matches :: "field \<Rightarrow> string \<Rightarrow> bool" where
  "matches Missing v = False"
| "matches (Text t) v = (v = t)"
| "matches (Operators cond) v = cond v"

text \<open>The operator object \<open>{ $ne: x }\<close>: the stored string is not \<open>x\<close>.\<close>

definition ne :: "string \<Rightarrow> field" where
  "ne x = Operators (\<lambda>v. v \<noteq> x)"

definition post_register :: "store \<Rightarrow> string \<Rightarrow> string \<Rightarrow> string option \<Rightarrow> response \<times> store" where
  "post_register s username pw job =
     (case findOne (\<lambda>u. name u = username) s of
        Some existingUser \<Rightarrow> (Failure ''Username already exists!'', s)
      | None \<Rightarrow>
          (let newUser = \<lparr>name = username, password = pw, jobTitle = job\<rparr>
           in case save (s, newUser, []) of
                Inl e \<Rightarrow> (Unhandled e, s)
              | Inr s' \<Rightarrow> (Success ''Registration successful! You can now log in.'' None, s')))"

definition post_auth :: "env \<Rightarrow> store \<Rightarrow> field \<Rightarrow> field \<Rightarrow> response \<times> store" where
  "post_auth env s username pw =
     (case findOne (\<lambda>u. matches username (name u) \<and> matches pw (password u)) s of
        Some (before, user, after) \<Rightarrow>
          (let token = encodeToken env \<lparr>name = name user, password = password user\<rparr>
           in (Success ''Authentication successful'' (Some token), s))
      | None \<Rightarrow> (Failure ''Invalid username or password'', s))"

definition get_status :: "env \<Rightarrow> store \<Rightarrow> string \<Rightarrow> response \<times> store" where
  "get_status env s token =
     (case decodeToken env token of
        Inl e \<Rightarrow> (Failure ''Invalid or expired token.'', s)
      | Inr payload \<Rightarrow>
          (case findOne (\<lambda>u. name u = name payload \<and> password u = password payload) s of
             None \<Rightarrow> (Failure ''User not found or invalid token.'', s)
           | Some (before, user, after) \<Rightarrow>
               (Status ''Token validated successfully'' (name user) (jobTitle user) token, s)))"

definition post_modify ::
  "env \<Rightarrow> store \<Rightarrow> string \<Rightarrow> string option \<Rightarrow> string option \<Rightarrow> response \<times> store" where
  "post_modify env s token newName newJobTitle =
     (case decodeToken env token of
        Inl e \<Rightarrow> (Failure ''Invalid or expired token.'', s)
      | Inr payload \<Rightarrow>
          (case findOne (\<lambda>u. name u = name payload \<and> password u = password payload) s of
             None \<Rightarrow> (Failure ''User not found.'', s)
           | Some (before, user, after) \<Rightarrow>
               (let user = (case newName of
                              Some n \<Rightarrow> if n \<noteq> [] then user\<lparr>name := n\<rparr> else user
                            | None \<Rightarrow> user);
                    user = (case newJobTitle of
                              Some j \<Rightarrow> if j \<noteq> [] then user\<lparr>jobTitle := Some j\<rparr> else user
                            | None \<Rightarrow> user)
                in case save (before, user, after) of
                     Inl e \<Rightarrow> (Failure ''Invalid or expired token.'', s)
                   | Inr s' \<Rightarrow>
                       (let newToken = encodeToken env \<lparr>name = name user, password = password user\<rparr>
                        in (Redirect (''/api/status?token='' @ newToken), s')))))"

definition post_delete :: "env \<Rightarrow> store \<Rightarrow> string \<Rightarrow> jsvalue \<Rightarrow> response \<times> store" where
  "post_delete env s token confirm =
     (if \<not> truthy confirm then (Failure ''You must confirm user deletion.'', s)
      else
        (case decodeToken env token of
           Inl e \<Rightarrow> (Failure ''Invalid or expired token.'', s)
         | Inr payload \<Rightarrow>
             (case findOneAndDelete (\<lambda>u. name u = name payload \<and> password u = password payload) s of
                (None, s') \<Rightarrow> (Failure ''User not found or invalid token.'', s')
              | (Some user, s') \<Rightarrow> (Success ''User deleted successfully.'' None, s'))))"

text \<open>The requests the router serves, and the server running through a list of them.\<close>

datatype request =
    Register string string "string option"
  | Auth field field
  | GetStatus string
  | Modify string "string option" "string option"
  | Delete string jsvalue

fun handle :: "env \<Rightarrow> store \<Rightarrow> request \<Rightarrow> response \<times> store" where
  "handle env s (Register username pw job) = post_register s username pw job"
| "handle env s (Auth username pw) = post_auth env s username pw"
| "handle env s (GetStatus token) = get_status env s token"
| "handle env s (Modify token newName newJobTitle) = post_modify env s token newName newJobTitle"
| "handle env s (Delete token confirm) = post_delete env s token confirm"

fun run :: "env \<Rightarrow> store \<Rightarrow> request list \<Rightarrow> store" where
  "run env s [] = s"
| "run env s (r # rs) = run env (snd (handle env s r)) rs"

text \<open>
  An environment to run examples in: a secret of the kind the README shows, and a stand-in
  for the digest.
\<close>

definition example_env :: env where
  "example_env = \<lparr>SECRET = ''qs3fda95h6z0JUN9wgTy1j2Cl54gB6yzG'', HS256 = (\<lambda>key input. key @ input)\<rparr>"

definition alice :: user where
  "alice = \<lparr>name = ''alice'', password = ''pw1'', jobTitle = None\<rparr>"

section \<open>The codec round trip\<close>

lemma index_of_nth: "distinct xs \<Longrightarrow> n < length xs \<Longrightarrow> index_of (xs ! n) xs = Some n"
proof (induction xs arbitrary: n)
  case Nil
  then show ?case by simp
next
  case (Cons x xs)
  show ?case
  proof (cases n)
    case 0
    then show ?thesis by simp
  next
    case (Suc m)
    with Cons.prems have "xs ! m \<noteq> x" by auto
    with Suc Cons show ?thesis by simp
  qed
qed

lemma distinct_alphabet: "distinct base64url_alphabet"
  by (simp add: base64url_alphabet_def)

lemma length_alphabet: "length base64url_alphabet = 64"
  by (simp add: base64url_alphabet_def)

lemma b64val_b64char: "n < 64 \<Longrightarrow> b64val (b64char n) = Some n"
  by (simp add: b64val_def b64char_def index_of_nth distinct_alphabet length_alphabet)

lemma d1: "x < 256 \<Longrightarrow> x div 4 < (64::nat)"
  by (simp add: div_less_iff_less_mult)

lemma d2: "y < 256 \<Longrightarrow> y div 16 < (16::nat)"
  by (simp add: div_less_iff_less_mult)

lemma d3: "z < 256 \<Longrightarrow> z div 64 < (4::nat)"
  by (simp add: div_less_iff_less_mult)

lemma sextet_bound2: "y < 256 \<Longrightarrow> (x mod 4) * 16 + y div 16 < (64::nat)"
proof -
  assume "y < 256"
  then have "y div 16 < 16" by (rule d2)
  moreover have "x mod 4 < 4" by simp
  ultimately show ?thesis by linarith
qed

lemma sextet_bound3: "z < 256 \<Longrightarrow> (y mod 16) * 4 + z div 64 < (64::nat)"
proof -
  assume "z < 256"
  then have "z div 64 < 4" by (rule d3)
  moreover have "y mod 16 < 16" by simp
  ultimately show ?thesis by linarith
qed

lemma sextet1: "y < 256 \<Longrightarrow> (x div 4) * 4 + ((x mod 4) * 16 + y div 16) div 16 = (x::nat)"
proof -
  assume "y < 256"
  then have "y div 16 < 16" by (rule d2)
  then have "((x mod 4) * 16 + y div 16) div 16 = x mod 4" by simp
  then show ?thesis by simp
qed

lemma sextet2:
  "y < 256 \<Longrightarrow> z < 256 \<Longrightarrow>
   (((x mod 4) * 16 + y div 16) mod 16) * 16 + ((y mod 16) * 4 + z div 64) div 4 = (y::nat)"
proof -
  assume "y < 256" "z < 256"
  then have a: "y div 16 < 16" and b: "z div 64 < 4" by (simp_all add: d2 d3)
  from a have "((x mod 4) * 16 + y div 16) mod 16 = y div 16" by simp
  moreover from b have "((y mod 16) * 4 + z div 64) div 4 = y mod 16" by simp
  ultimately show ?thesis by simp
qed

lemma sextet3: "z < 256 \<Longrightarrow> (((y mod 16) * 4 + z div 64) mod 4) * 64 + z mod 64 = (z::nat)"
proof -
  assume "z < 256"
  then have b: "z div 64 < 4" by (rule d3)
  then have "((y mod 16) * 4 + z div 64) mod 4 = z div 64" by simp
  then show ?thesis by simp
qed

lemma b64_first: "b64val (b64char (of_char a div 4)) = Some (of_char a div 4)"
  by (rule b64val_b64char) (simp add: d1)

lemma b64_second:
  "b64val (b64char ((x mod 4) * 16 + of_char b div 16)) = Some ((x mod 4) * 16 + of_char b div 16)"
  by (rule b64val_b64char) (simp add: sextet_bound2)

lemma b64_third:
  "b64val (b64char ((y mod 16) * 4 + of_char c div 64)) = Some ((y mod 16) * 4 + of_char c div 64)"
  by (rule b64val_b64char) (simp add: sextet_bound3)

lemma b64_fourth: "b64val (b64char (z mod 64)) = Some (z mod 64)"
  by (rule b64val_b64char) simp

lemma b64_second0: "b64val (b64char ((x mod 4) * 16)) = Some ((x mod 4) * 16)"
  using b64_second [of x "CHR 0x00"] by simp

lemma b64_third0: "b64val (b64char ((y mod 16) * 4)) = Some ((y mod 16) * 4)"
  using b64_third [of y "CHR 0x00"] by simp

lemma base64url_roundtrip: "base64urlDecode (base64urlEncode bs) = Some bs"
proof (induction bs rule: base64urlEncode.induct)
  case 1
  then show ?case by simp
next
  case (2 a)
  have "of_char a div 4 * 4 + (of_char a mod 4 * 16) div 16 = (of_char a :: nat)"
    using sextet1 [of 0 "of_char a"] by simp
  then show ?case
    by (simp add: Let_def b64_first b64_second0)
next
  case (3 a b)
  have "of_char a div 4 * 4 + (of_char a mod 4 * 16 + of_char b div 16) div 16 = (of_char a :: nat)"
    by (rule sextet1) simp
  moreover have "(of_char a mod 4 * 16 + of_char b div 16) mod 16 * 16 + (of_char b mod 16 * 4) div 4
      = (of_char b :: nat)"
    using sextet2 [of "of_char b" 0 "of_char a"] by simp
  ultimately show ?case
    by (simp add: Let_def b64_first b64_second b64_third0)
next
  case (4 a b c rest)
  have "of_char a div 4 * 4 + (of_char a mod 4 * 16 + of_char b div 16) div 16 = (of_char a :: nat)"
    by (rule sextet1) simp
  moreover have "(of_char a mod 4 * 16 + of_char b div 16) mod 16 * 16
      + (of_char b mod 16 * 4 + of_char c div 64) div 4 = (of_char b :: nat)"
    by (rule sextet2) simp_all
  moreover have "(of_char b mod 16 * 4 + of_char c div 64) mod 4 * 64 + of_char c mod 64
      = (of_char c :: nat)"
    by (rule sextet3) simp
  ultimately show ?case
    using 4 by (simp add: Let_def b64_first b64_second b64_third b64_fourth)
qed


lemma expect_append: "expect xs (xs @ ys) = Some ys"
  by (induction xs) simp_all

lemma hexval_hexdigit: "n < 16 \<Longrightarrow> hexval (hexdigit n) = Some n"
proof -
  assume n: "n < 16"
  have "distinct hex_lower" "length hex_lower = 16"
    by (simp_all add: hex_lower_def)
  with n have "index_of (hex_lower ! n) hex_lower = Some n"
    by (simp add: index_of_nth)
  with n show ?thesis
    by (simp add: hexval_def hexdigit_def)
qed

lemma hexval_zero: "hexval CHR ''0'' = Some 0"
  by (simp add: hexval_def hex_lower_def)

lemma unquote_control:
  assumes "(of_char c :: nat) < 32"
  shows "unquote ([CHR 0x5C, CHR ''u'', CHR ''0'', CHR ''0'',
         hexdigit (of_char c div 16), hexdigit (of_char c mod 16)] @ rest)
       = map_option (apfst (Cons c)) (unquote rest)"
proof -
  from assms have hi: "hexval (hexdigit (of_char c div 16)) = Some (of_char c div 16)"
    by (intro hexval_hexdigit) (simp add: div_less_iff_less_mult)
  have lo: "hexval (hexdigit (of_char c mod 16)) = Some (of_char c mod 16)"
    by (intro hexval_hexdigit) simp
  from assms have small: "(of_char c :: nat) div 16 * 16 + of_char c mod 16 < 128"
    by simp
  show ?thesis
    using small by (simp add: hi lo hexval_zero)
qed

lemma unquote_escape: "unquote (escape c @ rest) = map_option (apfst (Cons c)) (unquote rest)"
proof (cases "(of_char c :: nat) < 32")
  case True
  then have "c \<noteq> CHR 0x22" "c \<noteq> CHR 0x5C" by auto
  with True show ?thesis
    using unquote_control [OF True, of rest]
    by (simp add: escape_def unescape_def)
next
  case False
  then have "c \<noteq> CHR 0x08" "c \<noteq> CHR 0x0C" "c \<noteq> CHR 0x0A" "c \<noteq> CHR 0x0D" "c \<noteq> CHR 0x09"
    by auto
  with False show ?thesis
    by (simp add: escape_def unescape_def)
qed

lemma unquote_quote_body:
  "unquote (concat (map escape s) @ CHR 0x22 # rest) = Some (s, rest)"
proof (induction s)
  case Nil
  show ?case by simp
next
  case (Cons c s)
  have "unquote (concat (map escape (c # s)) @ CHR 0x22 # rest)
      = unquote (escape c @ (concat (map escape s) @ CHR 0x22 # rest))"
    by simp
  also have "\<dots> = map_option (apfst (Cons c)) (unquote (concat (map escape s) @ CHR 0x22 # rest))"
    by (rule unquote_escape)
  also have "\<dots> = Some (c # s, rest)"
    by (simp add: Cons.IH)
  finally show ?case .
qed

lemma parse_stringify_payload: "parse_payload (stringify_payload p) = Some p"
proof -
  let ?k1 = "''{'' @ quote ''name'' @ '':'' @ [CHR 0x22]"
  let ?k2 = "'','' @ quote ''password'' @ '':'' @ [CHR 0x22]"
  have s: "stringify_payload p =
      ?k1 @ (concat (map escape (name p)) @ CHR 0x22 #
        (?k2 @ (concat (map escape (password p)) @ CHR 0x22 # ''}'')))"
    by (simp add: stringify_payload_def quote_def)
  show ?thesis
    unfolding parse_payload_def s expect_append option.case unquote_quote_body prod.case
    by simp
qed

lemma parse_stringify_header: "parse_header (stringify_header alg) = Some alg"
proof -
  let ?k = "''{'' @ quote ''typ'' @ '':'' @ quote ''JWT'' @ '','' @ quote ''alg'' @ '':'' @ [CHR 0x22]"
  have s: "stringify_header alg = ?k @ (concat (map escape alg) @ CHR 0x22 # ''}'')"
    by (simp add: stringify_header_def quote_def)
  show ?thesis
    unfolding parse_header_def s expect_append option.case unquote_quote_body prod.case
    by simp
qed


lemma js_split_no_sep: "sep \<notin> set s \<Longrightarrow> js_split sep s = [s]"
  by (induction s) auto

lemma js_split_append:
  "sep \<notin> set s \<Longrightarrow> js_split sep (s @ sep # t) = s # js_split sep t"
  by (induction s) auto

lemma b64char_in_alphabet: "b64char n \<in> set base64url_alphabet"
  unfolding b64char_def by (rule nth_mem) (simp add: length_alphabet)

lemma set_base64urlEncode: "set (base64urlEncode bs) \<subseteq> set base64url_alphabet"
  by (induction bs rule: base64urlEncode.induct) (simp_all add: Let_def b64char_in_alphabet)

lemma dot_not_in_alphabet: "CHR ''.'' \<notin> set base64url_alphabet"
  by (simp add: base64url_alphabet_def)

lemma dot_not_in_base64url: "CHR ''.'' \<notin> set (base64urlEncode bs)"
  using set_base64urlEncode [of bs] dot_not_in_alphabet by blast

lemma js_split_three:
  "js_split (CHR ''.'') (base64urlEncode a @ CHR ''.'' # base64urlEncode b @ CHR ''.'' # base64urlEncode c)
     = [base64urlEncode a, base64urlEncode b, base64urlEncode c]"
  by (simp add: js_split_append js_split_no_sep dot_not_in_base64url)

lemma jwt_encode_segments:
  "jwt_encode hmac payload key =
     base64urlEncode (stringify_header ''HS256'') @ CHR ''.'' #
     base64urlEncode (stringify_payload payload) @ CHR ''.'' #
     base64urlEncode (hmac key (base64urlEncode (stringify_header ''HS256'') @ CHR ''.'' #
                               base64urlEncode (stringify_payload payload)))"
  by (simp add: jwt_encode_def sign_def Let_def)

lemma jwt_encode_not_Nil: "jwt_encode hmac payload key \<noteq> []"
  unfolding jwt_encode_segments by (cases "base64urlEncode (stringify_header ''HS256'')") simp_all

lemma jwt_decode_encode: "jwt_decode hmac (jwt_encode hmac payload key) key = Inr payload"
proof -
  have "js_split (CHR ''.'') (jwt_encode hmac payload key) =
      [base64urlEncode (stringify_header ''HS256''), base64urlEncode (stringify_payload payload),
       sign hmac (js_join ''.'' [base64urlEncode (stringify_header ''HS256''),
                               base64urlEncode (stringify_payload payload)]) key]"
    unfolding jwt_encode_segments js_split_three by (simp add: sign_def)
  then show ?thesis
    unfolding jwt_decode_def
    by (simp add: jwt_encode_not_Nil base64url_roundtrip parse_stringify_header
        parse_stringify_payload
        del: base64urlEncode.simps base64urlDecode.simps js_split.simps js_join.simps)
qed

text \<open>
  The segments the model writes are those of a real token: the header every HS256 token of
  the library starts with, and the payload for ("alice", "pw1").
\<close>

lemma jwt_example_segments:
  "base64urlEncode (stringify_header ''HS256'') = ''eyJ0eXAiOiJKV1QiLCJhbGciOiJIUzI1NiJ9''"
  "base64urlEncode (stringify_payload \<lparr>name = ''alice'', password = ''pw1''\<rparr>)
     = ''eyJuYW1lIjoiYWxpY2UiLCJwYXNzd29yZCI6InB3MSJ9''"
  by code_simp+

section \<open>Looking documents up\<close>

lemma decode_encode: "decodeToken env (encodeToken env p) = Inr p"
  by (simp add: decodeToken_def encodeToken_def jwt_decode_encode)

lemma findOne_None_iff: "findOne cond s = None \<longleftrightarrow> (\<forall>d\<in>set s. \<not> cond d)"
  by (simp add: findOne_def extract_None_iff)

lemma findOne_Some_iff:
  "findOne cond s = Some (before, doc, after) \<longleftrightarrow>
     s = before @ doc # after \<and> cond doc \<and> (\<forall>d\<in>set before. \<not> cond d)"
  by (auto simp add: findOne_def extract_Some_iff)

lemma findOne_Nil: "findOne cond [] = None"
  by (simp add: findOne_def extract_Nil_code)

lemma findOne_Cons:
  "findOne cond (d # s) =
     (if cond d then Some ([], d, s)
      else (case findOne cond s of
              None \<Rightarrow> None
            | Some (before, doc, after) \<Rightarrow> Some (d # before, doc, after)))"
  by (simp add: findOne_def extract_Cons_code)

lemma findOne_cases:
  obtains (absent) "findOne cond s = None" "\<forall>d\<in>set s. \<not> cond d"
  | (present) before doc after where "findOne cond s = Some (before, doc, after)"
      "s = before @ doc # after" "cond doc" "\<forall>d\<in>set before. \<not> cond d"
proof (cases "findOne cond s")
  case None
  then show ?thesis using absent by (simp add: findOne_None_iff)
next
  case (Some t)
  obtain before doc after where "t = (before, doc, after)" by (cases t)
  with Some show ?thesis using present by (simp add: findOne_Some_iff)
qed

lemma findOne_append_new:
  "\<forall>d\<in>set s. \<not> cond d \<Longrightarrow> cond doc \<Longrightarrow> findOne cond (s @ [doc]) = Some (s, doc, [])"
  by (simp add: findOne_Some_iff)

lemma findOneAndDelete_None: "\<forall>d\<in>set s. \<not> cond d \<Longrightarrow> findOneAndDelete cond s = (None, s)"
proof -
  assume "\<forall>d\<in>set s. \<not> cond d"
  then have "List.extract cond s = None" by (simp add: extract_None_iff)
  then show ?thesis by (simp add: findOneAndDelete_def)
qed

lemma findOneAndDelete_Some:
  "findOne cond s = Some (before, doc, after) \<Longrightarrow> findOneAndDelete cond s = (Some doc, before @ after)"
  by (simp add: findOneAndDelete_def findOne_def)

section \<open>Registration\<close>

lemma post_register_taken:
  "\<exists>d\<in>set s. name d = u \<Longrightarrow> post_register s u q job = (Failure ''Username already exists!'', s)"
proof (cases rule: findOne_cases [of "\<lambda>d. name d = u" s])
  case absent
  moreover assume "\<exists>d\<in>set s. name d = u"
  ultimately show ?thesis by simp
next
  case (present before doc after)
  then show ?thesis by (simp add: post_register_def)
qed

lemma post_register_fresh:
  "\<forall>d\<in>set s. name d \<noteq> u \<Longrightarrow>
   post_register s u p job =
     (if u \<noteq> [] \<and> p \<noteq> []
      then (Success ''Registration successful! You can now log in.'' None,
            s @ [\<lparr>name = u, password = p, jobTitle = job\<rparr>])
      else (Unhandled ValidationError, s))"
  by (simp add: post_register_def findOne_None_iff [THEN iffD2] save_def validate_def)

lemma post_register_Success:
  assumes "post_register s u p job = (Success msg tok, s')"
  shows "tok = None \<and> s' = s @ [\<lparr>name = u, password = p, jobTitle = job\<rparr>]
         \<and> (\<forall>d\<in>set s. name d \<noteq> u)"
proof (cases "\<exists>d\<in>set s. name d = u")
  case True
  from post_register_taken [OF True] assms show ?thesis by simp
next
  case False
  then have fresh: "\<forall>d\<in>set s. name d \<noteq> u" by simp
  from post_register_fresh [OF fresh, of p job] assms fresh show ?thesis
    by (simp split: if_splits)
qed

lemma run_register_taken:
  "\<exists>d\<in>set s. name d = u \<Longrightarrow> run env s (map (\<lambda>(q, j). Register u q j) attempts) = s"
  by (induction attempts) (simp_all add: post_register_taken split: prod.split)

lemma findOneAndDelete_appended:
  "\<forall>d\<in>set s. \<not> cond d \<Longrightarrow> cond doc \<Longrightarrow> findOneAndDelete cond (s @ [doc]) = (Some doc, s)"
  using findOneAndDelete_Some [OF findOne_append_new, of s cond doc] by simp

section \<open>Modification and what the requests preserve\<close>

lemma snd_post_auth: "snd (post_auth env s username pw) = s"
  by (simp add: post_auth_def Let_def split: option.split)

lemma snd_get_status: "snd (get_status env s token) = s"
  by (simp add: get_status_def split: sum.split option.split)

lemma post_modify_Failure:
  "fst (post_modify env s token newName newJobTitle) = Failure m \<Longrightarrow>
   snd (post_modify env s token newName newJobTitle) = s"
  by (auto simp add: post_modify_def Let_def split: option.splits sum.splits)

lemma post_modify_effect:
  assumes "post_modify env s token newName newJobTitle = (Redirect url, s')"
  obtains payload before user after n' j' where
    "decodeToken env token = Inr payload"
    "findOne (\<lambda>u. name u = name payload \<and> password u = password payload) s
       = Some (before, user, after)"
    "n' = (case newName of Some (c # cs) \<Rightarrow> c # cs | _ \<Rightarrow> name user)"
    "j' = (case newJobTitle of Some (c # cs) \<Rightarrow> Some (c # cs) | _ \<Rightarrow> jobTitle user)"
    "s' = before @ \<lparr>name = n', password = password user, jobTitle = j'\<rparr> # after"
    "url = ''/api/status?token='' @ encodeToken env \<lparr>name = n', password = password user\<rparr>"
proof -
  from assms obtain payload where d: "decodeToken env token = Inr payload"
    by (cases "decodeToken env token") (simp_all add: post_modify_def)
  from assms d obtain before user after where
    f: "findOne (\<lambda>u. name u = name payload \<and> password u = password payload) s
          = Some (before, user, after)"
    by (cases "findOne (\<lambda>u. name u = name payload \<and> password u = password payload) s")
      (auto simp add: post_modify_def)
  from assms d f show thesis
    by (intro that [OF d f refl refl])
      (auto simp add: post_modify_def save_def Let_def split: option.splits list.splits if_splits)
qed


lemma old_token_after_modify:
  assumes unique: "distinct (map name s)"
    and ok: "post_modify env s token newName newJobTitle = (Redirect url, s')"
    and d: "decodeToken env token = Inr payload"
  shows "(\<exists>n j. get_status env s' token = (Status ''Token validated successfully'' n j token, s'))
         \<longleftrightarrow> (case newName of Some (c # cs) \<Rightarrow> c # cs = name payload | _ \<Rightarrow> True)"
proof -
  let ?cond = "\<lambda>u::user. name u = name payload \<and> password u = password payload"
  from ok obtain payload' before user after n' j' where
    d': "decodeToken env token = Inr payload'"
    and f': "findOne (\<lambda>u. name u = name payload' \<and> password u = password payload') s
       = Some (before, user, after)"
    and n': "n' = (case newName of Some (c # cs) \<Rightarrow> c # cs | _ \<Rightarrow> name user)"
    and j': "j' = (case newJobTitle of Some (c # cs) \<Rightarrow> Some (c # cs) | _ \<Rightarrow> jobTitle user)"
    and s': "s' = before @ \<lparr>name = n', password = password user, jobTitle = j'\<rparr> # after"
    and url: "url = ''/api/status?token='' @ encodeToken env \<lparr>name = n', password = password user\<rparr>"
    by (rule post_modify_effect)
  from d d' have "payload' = payload" by simp
  with f' have f: "findOne ?cond s = Some (before, user, after)" by simp
  then have s: "s = before @ user # after" and m: "?cond user"
    and nb: "\<forall>x\<in>set before. \<not> ?cond x"
    by (simp_all add: findOne_Some_iff)
  from unique s m have "name payload \<notin> name ` (set before \<union> set after)"
    by auto
  then have others: "\<forall>x\<in>set before \<union> set after. name x \<noteq> name payload"
    by (metis imageI)
  let ?user' = "\<lparr>name = n', password = password user, jobTitle = j'\<rparr>"
  have rhs: "(case newName of Some (c # cs) \<Rightarrow> c # cs = name payload | _ \<Rightarrow> True)
      \<longleftrightarrow> n' = name payload"
    using n' m by (simp split: option.split list.split)
  show ?thesis
  proof (cases "n' = name payload")
    case True
    with m nb have "findOne ?cond s' = Some (before, ?user', after)"
      by (simp add: findOne_Some_iff s')
    with d True rhs show ?thesis
      by (simp add: get_status_def)
  next
    case False
    with others have "\<forall>x\<in>set s'. \<not> ?cond x"
      by (auto simp add: s')
    then have "findOne ?cond s' = None"
      by (simp add: findOne_None_iff)
    with d False rhs show ?thesis
      by (simp add: get_status_def)
  qed
qed

lemma distinct_names_preserved:
  assumes unique: "distinct (map name s)"
    and no_clash: "\<And>token n j. r = Modify token (Some n) j \<Longrightarrow> n = [] \<or> n \<notin> name ` set s"
  shows "distinct (map name (snd (handle env s r)))"
proof (cases r)
  case (Register username pw job)
  show ?thesis
  proof (cases "\<exists>d\<in>set s. name d = username")
    case True
    with Register unique show ?thesis by (simp add: post_register_taken)
  next
    case False
    then have "\<forall>d\<in>set s. name d \<noteq> username" by simp
    from post_register_fresh [OF this, of pw job] Register unique False show ?thesis
      by auto
  qed
next
  case (Auth username pw)
  with unique show ?thesis by (simp add: snd_post_auth)
next
  case (GetStatus token)
  with unique show ?thesis by (simp add: snd_get_status)
next
  case (Modify token newName newJobTitle)
  show ?thesis
  proof (cases "fst (post_modify env s token newName newJobTitle)")
    case (Failure m)
    then have "snd (post_modify env s token newName newJobTitle) = s"
      by (rule post_modify_Failure)
    with Modify unique show ?thesis by simp
  next
    case (Redirect url)
    then have "post_modify env s token newName newJobTitle
        = (Redirect url, snd (post_modify env s token newName newJobTitle))"
      by (simp add: prod_eq_iff)
    then obtain payload before user after n' j' where
      d: "decodeToken env token = Inr payload"
      and f: "findOne (\<lambda>u. name u = name payload \<and> password u = password payload) s
         = Some (before, user, after)"
      and n': "n' = (case newName of Some (c # cs) \<Rightarrow> c # cs | _ \<Rightarrow> name user)"
      and j': "j' = (case newJobTitle of Some (c # cs) \<Rightarrow> Some (c # cs) | _ \<Rightarrow> jobTitle user)"
      and s': "snd (post_modify env s token newName newJobTitle)
         = before @ \<lparr>name = n', password = password user, jobTitle = j'\<rparr> # after"
      and url: "url = ''/api/status?token='' @ encodeToken env \<lparr>name = n', password = password user\<rparr>"
      by (rule post_modify_effect)
    from f have s: "s = before @ user # after" by (simp add: findOne_Some_iff)
    have "n' = name user \<or> n' \<notin> name ` set s"
    proof (cases newName)
      case None
      with n' show ?thesis by simp
    next
      case (Some n)
      with Modify have "r = Modify token (Some n) newJobTitle" by simp
      from no_clash [OF this] n' Some show ?thesis
        by (cases n) auto
    qed
    with unique s have "distinct (map name (before @ \<lparr>name = n', password = password user, jobTitle = j'\<rparr> # after))"
      by auto
    with Modify s' show ?thesis by simp
  next
    case (Success m t)
    then show ?thesis
      by (auto simp add: post_modify_def Let_def split: sum.splits option.splits)
  next
    case (Status m n j t)
    then show ?thesis
      by (auto simp add: post_modify_def Let_def split: sum.splits option.splits)
  next
    case (Unhandled e)
    then show ?thesis
      by (auto simp add: post_modify_def Let_def split: sum.splits option.splits)
  qed
next
  case (Delete token confirm)
  have "snd (post_delete env s token confirm) = s
      \<or> (\<exists>before doc after. s = before @ doc # after
          \<and> snd (post_delete env s token confirm) = before @ after)"
    by (auto simp add: post_delete_def findOneAndDelete_def extract_Some_iff
        split: sum.splits option.splits)
  with unique Delete show ?thesis by auto
qed

lemma schema_preserved:
  assumes "\<forall>d\<in>set s. validate d"
  shows "\<forall>d\<in>set (snd (handle env s r)). validate d"
proof (cases r)
  case (Register username pw job)
  with assms show ?thesis
    by (auto simp add: post_register_def save_def Let_def split: option.splits)
next
  case (Auth username pw)
  with assms show ?thesis by (simp add: snd_post_auth)
next
  case (GetStatus token)
  with assms show ?thesis by (simp add: snd_get_status)
next
  case (Modify token newName newJobTitle)
  with assms show ?thesis
    by (auto simp add: post_modify_def save_def Let_def findOne_Some_iff
        split: sum.splits option.splits if_splits)
next
  case (Delete token confirm)
  with assms show ?thesis
    by (auto simp add: post_delete_def findOneAndDelete_def extract_Some_iff
        split: sum.splits option.splits)
qed

lemma run_schema: "\<forall>d\<in>set s. validate d \<Longrightarrow> \<forall>d\<in>set (run env s rs). validate d"
proof (induction rs arbitrary: s)
  case Nil
  then show ?case by simp
next
  case (Cons r rs)
  from Cons.prems have "\<forall>d\<in>set (snd (handle env s r)). validate d"
    by (rule schema_preserved)
  then have "\<forall>d\<in>set (run env (snd (handle env s r)) rs). validate d"
    by (rule Cons.IH)
  then show ?case by simp
qed

section \<open>The claims\<close>

text \<open>
  For string credentials \<open>/auth\<close> does what C1 asks: it answers with a token exactly when
  a document has this name and this password, the token is the three-segment encoding of
  these two strings and decodes to them, and the collection stays as it was.
\<close>

lemma post_auth_Text:
  "post_auth env s (Text u) (Text p) =
     (if \<exists>d\<in>set s. name d = u \<and> password d = p
      then (Success ''Authentication successful''
              (Some (encodeToken env \<lparr>name = u, password = p\<rparr>)), s)
      else (Failure ''Invalid username or password'', s))"
proof (cases rule: findOne_cases [of "\<lambda>d. matches (Text u) (name d) \<and> matches (Text p) (password d)" s])
  case absent
  then show ?thesis by (simp add: post_auth_def)
next
  case (present before doc after)
  then have "\<exists>d\<in>set s. name d = u \<and> password d = p" by auto
  with present show ?thesis by (simp add: post_auth_def)
qed

lemma encodeToken_segments:
  "encodeToken env c =
     base64urlEncode (stringify_header ''HS256'') @ CHR ''.'' #
     base64urlEncode (stringify_payload c) @ CHR ''.'' #
     base64urlEncode (HS256 env (SECRET env)
       (base64urlEncode (stringify_header ''HS256'') @ CHR ''.'' #
        base64urlEncode (stringify_payload c)))"
  by (simp add: encodeToken_def jwt_encode_segments)

text \<open>
  C1. \<open>/auth\<close> should answer with a token for the claims \<open>{name: u, password: p}\<close>
  exactly when the collection holds a document with name \<open>u\<close> and password \<open>p\<close>, and
  otherwise with "Invalid username or password" (InvalidCredentials). The handler does not
  look at what kind of value the two fields are. With the operator object \<open>{ $ne: "x" }\<close>
  in both, on the collection that holds only ("alice", "pw1"), no document has these values
  as name and password, yet \<open>/auth\<close> succeeds: it answers with the token of alice, the
  three segments below, which decodes to her name and her password.
\<close>

theorem post_auth_operator_object:
  "post_auth env [alice] (ne ''x'') (ne ''x'')
     = (Success ''Authentication successful''
          (Some (encodeToken env \<lparr>name = ''alice'', password = ''pw1''\<rparr>)), [alice])
   \<and> encodeToken env \<lparr>name = ''alice'', password = ''pw1''\<rparr>
     = ''eyJ0eXAiOiJKV1QiLCJhbGciOiJIUzI1NiJ9.eyJuYW1lIjoiYWxpY2UiLCJwYXNzd29yZCI6InB3MSJ9.'' @
       base64urlEncode (HS256 env (SECRET env)
         ''eyJ0eXAiOiJKV1QiLCJhbGciOiJIUzI1NiJ9.eyJuYW1lIjoiYWxpY2UiLCJwYXNzd29yZCI6InB3MSJ9'')
   \<and> decodeToken env (encodeToken env \<lparr>name = ''alice'', password = ''pw1''\<rparr>)
     = Inr \<lparr>name = ''alice'', password = ''pw1''\<rparr>
   \<and> \<not> (\<exists>d\<in>set [alice]. Text (name d) = ne ''x'' \<and> Text (password d) = ne ''x'')
   \<and> post_auth env [alice] (Text ''x'') (Text ''x'') = (Failure ''Invalid username or password'', [alice])"
proof -
  have "post_auth env [alice] (ne ''x'') (ne ''x'')
      = (Success ''Authentication successful''
           (Some (encodeToken env \<lparr>name = ''alice'', password = ''pw1''\<rparr>)), [alice])"
    by (simp add: post_auth_def findOne_Cons ne_def alice_def)
  moreover have "encodeToken env \<lparr>name = ''alice'', password = ''pw1''\<rparr>
      = ''eyJ0eXAiOiJKV1QiLCJhbGciOiJIUzI1NiJ9.eyJuYW1lIjoiYWxpY2UiLCJwYXNzd29yZCI6InB3MSJ9.'' @
        base64urlEncode (HS256 env (SECRET env)
          ''eyJ0eXAiOiJKV1QiLCJhbGciOiJIUzI1NiJ9.eyJuYW1lIjoiYWxpY2UiLCJwYXNzd29yZCI6InB3MSJ9'')"
    unfolding encodeToken_segments jwt_example_segments by simp
  moreover have "decodeToken env (encodeToken env \<lparr>name = ''alice'', password = ''pw1''\<rparr>)
      = Inr \<lparr>name = ''alice'', password = ''pw1''\<rparr>"
    by (rule decode_encode)
  moreover have "\<not> (\<exists>d\<in>set [alice]. Text (name d) = ne ''x'' \<and> Text (password d) = ne ''x'')"
    by (simp add: ne_def)
  moreover have "post_auth env [alice] (Text ''x'') (Text ''x'')
      = (Failure ''Invalid username or password'', [alice])"
    by (simp add: post_auth_def findOne_Nil findOne_Cons alice_def)
  ultimately show ?thesis by simp
qed

text \<open>
  C2. Decoding the token that \<open>encodeToken\<close> makes of a payload \<open>C\<close>, under the same
  secret, gives \<open>C\<close> back.
\<close>

theorem decodeToken_encodeToken: "decodeToken env (encodeToken env C) = Inr C"
  by (rule decode_encode)

text \<open>
  C3. A successful \<open>/modify\<close> overwrites only the fields it is given non-empty, keeps the
  password, and mints the new token from the resulting name and that password (lemma
  \<open>post_modify_effect\<close>); on a collection with unique names the old token passes
  \<open>/status\<close> afterwards exactly when the name did not change (lemma
  \<open>old_token_after_modify\<close>). But \<open>/modify\<close> writes a name without the check that
  \<open>/register\<close> makes, so the collection can come to hold two documents with one name and
  one password, and there the last part fails: the first of them is renamed, and the old token
  still passes \<open>/status\<close>, on the other one. The server, started on the empty collection:
\<close>

theorem renamed_duplicate_keeps_old_token:
  "run env []
     [Register ''alice'' ''pw1'' None, Register ''bob'' ''pw1'' None,
      Modify (encodeToken env \<lparr>name = ''bob'', password = ''pw1''\<rparr>) (Some ''alice'') None]
     = [\<lparr>name = ''alice'', password = ''pw1'', jobTitle = None\<rparr>,
        \<lparr>name = ''alice'', password = ''pw1'', jobTitle = None\<rparr>]
   \<and> post_modify env
       [\<lparr>name = ''alice'', password = ''pw1'', jobTitle = None\<rparr>,
        \<lparr>name = ''alice'', password = ''pw1'', jobTitle = None\<rparr>]
       (encodeToken env \<lparr>name = ''alice'', password = ''pw1''\<rparr>) (Some ''carol'') None
     = (Redirect (''/api/status?token='' @ encodeToken env \<lparr>name = ''carol'', password = ''pw1''\<rparr>),
        [\<lparr>name = ''carol'', password = ''pw1'', jobTitle = None\<rparr>,
         \<lparr>name = ''alice'', password = ''pw1'', jobTitle = None\<rparr>])
   \<and> get_status env
       [\<lparr>name = ''carol'', password = ''pw1'', jobTitle = None\<rparr>,
        \<lparr>name = ''alice'', password = ''pw1'', jobTitle = None\<rparr>]
       (encodeToken env \<lparr>name = ''alice'', password = ''pw1''\<rparr>)
     = (Status ''Token validated successfully'' ''alice'' None
          (encodeToken env \<lparr>name = ''alice'', password = ''pw1''\<rparr>),
        [\<lparr>name = ''carol'', password = ''pw1'', jobTitle = None\<rparr>,
         \<lparr>name = ''alice'', password = ''pw1'', jobTitle = None\<rparr>])"
  by (simp add: post_register_def post_modify_def get_status_def findOne_Nil findOne_Cons
      save_def validate_def decode_encode Let_def)

text \<open>
  C4 (scenario D). On a collection with no document named "alice": registering
  ("alice", "pw1") succeeds; \<open>/auth\<close> with these credentials yields a token \<open>T\<close>;
  \<open>/delete\<close> with \<open>T\<close> and a truthy \<open>confirm\<close> succeeds; after it \<open>/status\<close> with \<open>T\<close>
  answers "User not found or invalid token." (StaleOrUnknownToken) and \<open>/auth\<close> answers
  "Invalid username or password" (InvalidCredentials), the document being gone.
\<close>

theorem scenario_register_auth_delete:
  assumes fresh: "\<forall>d\<in>set s. name d \<noteq> ''alice''" and confirmed: "truthy confirm"
  shows "let a = \<lparr>name = ''alice'', password = ''pw1'', jobTitle = job\<rparr>;
             T = encodeToken env \<lparr>name = ''alice'', password = ''pw1''\<rparr>
         in post_register s ''alice'' ''pw1'' job
              = (Success ''Registration successful! You can now log in.'' None, s @ [a])
          \<and> post_auth env (s @ [a]) (Text ''alice'') (Text ''pw1'')
              = (Success ''Authentication successful'' (Some T), s @ [a])
          \<and> post_delete env (s @ [a]) T confirm = (Success ''User deleted successfully.'' None, s)
          \<and> get_status env s T = (Failure ''User not found or invalid token.'', s)
          \<and> post_auth env s (Text ''alice'') (Text ''pw1'')
              = (Failure ''Invalid username or password'', s)"
proof -
  let ?a = "\<lparr>name = ''alice'', password = ''pw1'', jobTitle = job\<rparr>"
  let ?T = "encodeToken env \<lparr>name = ''alice'', password = ''pw1''\<rparr>"
  let ?cond = "\<lambda>u::user. name u = ''alice'' \<and> password u = ''pw1''"
  from fresh have none: "\<forall>d\<in>set s. \<not> ?cond d" by simp
  have filter_eq: "(\<lambda>u::user. matches (Text ''alice'') (name u) \<and> matches (Text ''pw1'') (password u)) = ?cond"
    by simp
  have reg: "post_register s ''alice'' ''pw1'' job
      = (Success ''Registration successful! You can now log in.'' None, s @ [?a])"
    using post_register_fresh [OF fresh, of "''pw1''" job] by simp
  have found: "findOne ?cond (s @ [?a]) = Some (s, ?a, [])"
    using none by (intro findOne_append_new) simp_all
  have auth: "post_auth env (s @ [?a]) (Text ''alice'') (Text ''pw1'')
      = (Success ''Authentication successful'' (Some ?T), s @ [?a])"
    unfolding post_auth_def filter_eq by (simp add: found)
  have del: "post_delete env (s @ [?a]) ?T confirm = (Success ''User deleted successfully.'' None, s)"
    using none confirmed by (simp add: post_delete_def decode_encode findOneAndDelete_appended)
  have absent: "findOne ?cond s = None"
    using none by (simp add: findOne_None_iff)
  have stat: "get_status env s ?T = (Failure ''User not found or invalid token.'', s)"
    by (simp add: get_status_def decode_encode absent)
  have auth2: "post_auth env s (Text ''alice'') (Text ''pw1'')
      = (Failure ''Invalid username or password'', s)"
    unfolding post_auth_def filter_eq by (simp add: absent)
  from reg auth del stat auth2 show ?thesis by (simp add: Let_def)
qed

theorem scenario_register_auth_delete_witness:
  "post_register [] ''alice'' ''pw1'' None
     = (Success ''Registration successful! You can now log in.'' None, [alice])
   \<and> post_auth example_env [alice] (Text ''alice'') (Text ''pw1'')
     = (Success ''Authentication successful''
         (Some (encodeToken example_env \<lparr>name = ''alice'', password = ''pw1''\<rparr>)), [alice])
   \<and> post_delete example_env [alice] (encodeToken example_env \<lparr>name = ''alice'', password = ''pw1''\<rparr>)
        (JSBoolean True) = (Success ''User deleted successfully.'' None, [])
   \<and> get_status example_env [] (encodeToken example_env \<lparr>name = ''alice'', password = ''pw1''\<rparr>)
     = (Failure ''User not found or invalid token.'', [])
   \<and> post_auth example_env [] (Text ''alice'') (Text ''pw1'')
     = (Failure ''Invalid username or password'', [])"
proof -
  have "\<forall>d\<in>set ([]::store). name d \<noteq> ''alice''" "truthy (JSBoolean True)"
    by simp_all
  from scenario_register_auth_delete [OF this, of None example_env]
  show ?thesis by (simp add: Let_def alice_def)
qed

text \<open>
  C5. \<open>/register\<close> answers "Username already exists!" (UsernameTaken), with no token and
  the collection unchanged, whenever a document with that name exists. After a registration
  of \<open>u\<close> with password \<open>p\<close> has succeeded (it issues no token), each further registration
  of \<open>u\<close>, with any password, gets that answer, any run of such attempts leaves the
  collection alone, and the password stored for \<open>u\<close> is \<open>p\<close>.
\<close>

theorem post_register_username_taken:
  "((\<exists>d\<in>set s. name d = u) \<longrightarrow>
      post_register s u q job = (Failure ''Username already exists!'', s))
   \<and> (post_register s u p job = (Success msg tok, s') \<longrightarrow>
        tok = None
        \<and> post_register s' u q job' = (Failure ''Username already exists!'', s')
        \<and> run env s' (map (\<lambda>(q, j). Register u q j) attempts) = s'
        \<and> (\<exists>d\<in>set s'. name d = u)
        \<and> (\<forall>d\<in>set s'. name d = u \<longrightarrow> password d = p))"
proof (intro conjI impI)
  assume "\<exists>d\<in>set s. name d = u"
  then show "post_register s u q job = (Failure ''Username already exists!'', s)"
    by (rule post_register_taken)
next
  assume ok: "post_register s u p job = (Success msg tok, s')"
  note r = post_register_Success [OF ok]
  from r show "tok = None" by simp
  from r show ex: "\<exists>d\<in>set s'. name d = u" by simp
  from ex show "post_register s' u q job' = (Failure ''Username already exists!'', s')"
    by (rule post_register_taken)
  from ex show "run env s' (map (\<lambda>(q, j). Register u q j) attempts) = s'"
    by (rule run_register_taken)
  from r show "\<forall>d\<in>set s'. name d = u \<longrightarrow> password d = p" by auto
qed

theorem post_register_username_taken_witness:
  "post_register [] ''alice'' ''pw1'' None
     = (Success ''Registration successful! You can now log in.'' None, [alice])
   \<and> post_register [alice] ''alice'' ''pw2'' None = (Failure ''Username already exists!'', [alice])
   \<and> run example_env [alice] [Register ''alice'' ''pw2'' None, Register ''alice'' ''pw3'' (Some ''clerk'')]
       = [alice]
   \<and> map password (filter (\<lambda>d. name d = ''alice'') [alice]) = [''pw1'']"
proof -
  have ok: "post_register [] ''alice'' ''pw1'' None
      = (Success ''Registration successful! You can now log in.'' None, [alice])"
    by (simp add: post_register_def findOne_Nil save_def validate_def alice_def)
  have "\<exists>d\<in>set [alice]. name d = ''alice''"
    by (simp add: alice_def)
  with ok post_register_username_taken [of "[]" "''alice''" "''pw2''" None "''pw1''"
      "''Registration successful! You can now log in.''" None "[alice]" None example_env
      "[(''pw2'', None), (''pw3'', Some ''clerk'')]"]
    post_register_username_taken [of "[alice]" "''alice''" "''pw2''" None]
    post_register_username_taken [of "[alice]" "''alice''" "''pw3''" "Some ''clerk''"]
  show ?thesis by (simp add: alice_def)
qed

text \<open>
  C6. With a falsy \<open>confirm\<close>, \<open>/delete\<close> answers "You must confirm user deletion."
  (ConfirmationRequired) and removes nothing, whatever the token is: the test comes before
  \<open>decodeToken\<close>, so a token that does not decode gets this answer too.
\<close>

theorem post_delete_unconfirmed:
  "\<not> truthy confirm \<Longrightarrow>
   post_delete env s token confirm = (Failure ''You must confirm user deletion.'', s)"
  by (simp add: post_delete_def)

theorem post_delete_unconfirmed_witness:
  "\<not> truthy (JSBoolean False)
   \<and> decodeToken example_env ''not-a-token'' = Inl Not_enough_or_too_many_segments
   \<and> post_delete example_env [alice] ''not-a-token'' (JSBoolean False)
       = (Failure ''You must confirm user deletion.'', [alice])
   \<and> post_delete example_env [alice] [] JSUndefined
       = (Failure ''You must confirm user deletion.'', [alice])"
  using post_delete_unconfirmed [of "JSBoolean False" example_env "[alice]" "''not-a-token''"]
    post_delete_unconfirmed [of JSUndefined example_env "[alice]" "[]"]
  by (simp add: decodeToken_def jwt_decode_def)

text \<open>
  C7. \<open>/status\<close> leaves the collection as it was; for a token that decodes and matches a
  document it answers with that document's name and job title and with the token it was
  given; asked again on the collection it left, it gives the same answer.
\<close>

theorem get_status_read_only:
  "snd (get_status env s token) = s
   \<and> (decodeToken env token = Inr payload \<longrightarrow>
      findOne (\<lambda>u. name u = name payload \<and> password u = password payload) s = Some (before, user, after) \<longrightarrow>
      fst (get_status env s token) =
        Status ''Token validated successfully'' (name user) (jobTitle user) token)
   \<and> get_status env (snd (get_status env s token)) token = get_status env s token"
proof -
  have "snd (get_status env s token) = s"
    by (simp add: get_status_def split: sum.split option.split)
  then show ?thesis
    by (simp add: get_status_def)
qed

theorem get_status_read_only_witness:
  "decodeToken example_env (encodeToken example_env \<lparr>name = ''alice'', password = ''pw1''\<rparr>)
     = Inr \<lparr>name = ''alice'', password = ''pw1''\<rparr>
   \<and> findOne (\<lambda>u. name u = ''alice'' \<and> password u = ''pw1'') [alice] = Some ([], alice, [])
   \<and> get_status example_env [alice] (encodeToken example_env \<lparr>name = ''alice'', password = ''pw1''\<rparr>)
       = (Status ''Token validated successfully'' ''alice'' None
            (encodeToken example_env \<lparr>name = ''alice'', password = ''pw1''\<rparr>), [alice])"
proof -
  let ?p = "\<lparr>name = ''alice'', password = ''pw1''\<rparr>"
  have d: "decodeToken example_env (encodeToken example_env ?p) = Inr ?p"
    by (rule decode_encode)
  have f: "findOne (\<lambda>u. name u = name ?p \<and> password u = password ?p) [alice] = Some ([], alice, [])"
    by (simp add: findOne_Some_iff alice_def)
  from get_status_read_only [of example_env "[alice]" "encodeToken example_env ?p" ?p "[]" alice "[]"] d f
  show ?thesis
    by (cases "get_status example_env [alice] (encodeToken example_env ?p)") (simp add: alice_def)
qed

text \<open>
  C8. No two documents of a collection the server has produced share a name. Every request
  but a renaming onto a name in use preserves this (lemma \<open>distinct_names_preserved\<close>);
  \<open>/modify\<close> does not look the new name up as \<open>/register\<close> does, and breaks it. The
  server, started on the empty collection, ends with two documents named "alice":
\<close>

theorem rename_onto_existing_name:
  "run env []
     [Register ''alice'' ''pw1'' None, Register ''bob'' ''pw2'' None,
      Modify (encodeToken env \<lparr>name = ''bob'', password = ''pw2''\<rparr>) (Some ''alice'') None]
     = [\<lparr>name = ''alice'', password = ''pw1'', jobTitle = None\<rparr>,
        \<lparr>name = ''alice'', password = ''pw2'', jobTitle = None\<rparr>]
   \<and> \<not> distinct (map name (run env []
     [Register ''alice'' ''pw1'' None, Register ''bob'' ''pw2'' None,
      Modify (encodeToken env \<lparr>name = ''bob'', password = ''pw2''\<rparr>) (Some ''alice'') None]))
   \<and> post_auth env
       [\<lparr>name = ''alice'', password = ''pw1'', jobTitle = None\<rparr>,
        \<lparr>name = ''bob'', password = ''pw2'', jobTitle = None\<rparr>] (Text ''bob'') (Text ''pw2'')
     = (Success ''Authentication successful''
          (Some (encodeToken env \<lparr>name = ''bob'', password = ''pw2''\<rparr>)),
        [\<lparr>name = ''alice'', password = ''pw1'', jobTitle = None\<rparr>,
         \<lparr>name = ''bob'', password = ''pw2'', jobTitle = None\<rparr>])"
  by (simp add: post_register_def post_modify_def post_auth_def findOne_Nil findOne_Cons
      save_def validate_def decode_encode Let_def)

text \<open>
  C9. Whenever a request is answered with the \<open>failure\<close> view (the answers for
  UsernameTaken, InvalidCredentials, InvalidToken, StaleOrUnknownToken and
  ConfirmationRequired are all of this kind), the collection is the one before the request.
\<close>

theorem failure_leaves_store:
  "fst (handle env s r) = Failure m \<Longrightarrow> snd (handle env s r) = s"
proof (cases r)
  case (Register username pw job)
  assume "fst (handle env s r) = Failure m"
  with Register show ?thesis
    by (auto simp add: post_register_def Let_def split: option.splits sum.splits)
next
  case (Auth username pw)
  then show ?thesis
    by (simp add: post_auth_def Let_def split: option.splits)
next
  case (GetStatus token)
  then show ?thesis
    by (simp add: get_status_def split: option.splits sum.splits)
next
  case (Modify token newName newJobTitle)
  assume "fst (handle env s r) = Failure m"
  with Modify show ?thesis
    by (auto simp add: post_modify_def Let_def split: option.splits sum.splits)
next
  case (Delete token confirm)
  assume "fst (handle env s r) = Failure m"
  with Delete show ?thesis
    by (auto simp add: post_delete_def findOneAndDelete_def split: option.splits sum.splits if_splits)
qed

theorem failure_leaves_store_witness:
  "fst (handle example_env [alice] (Auth (Text ''alice'') (Text ''pw2''))) = Failure ''Invalid username or password''
   \<and> snd (handle example_env [alice] (Auth (Text ''alice'') (Text ''pw2''))) = [alice]"
proof -
  have h: "fst (handle example_env [alice] (Auth (Text ''alice'') (Text ''pw2''))) = Failure ''Invalid username or password''"
    by (simp add: post_auth_def findOne_Nil findOne_Cons alice_def)
  from failure_leaves_store [OF h] h show ?thesis by simp
qed

text \<open>
  C10. \<open>/modify\<close> with neither a new name nor a new job title (each absent or empty), on a
  token that decodes and matches a document conforming to the schema, succeeds: the
  collection, and with it the document's name, password and job title, is unchanged; the new
  token is the encoding of the old token's claims and decodes to them; and the old token
  still passes \<open>/status\<close>.
\<close>

theorem post_modify_nothing_provided:
  assumes "decodeToken env token = Inr payload"
    and "findOne (\<lambda>u. name u = name payload \<and> password u = password payload) s
           = Some (before, user, after)"
    and "validate user"
    and "newName = None \<or> newName = Some []"
    and "newJobTitle = None \<or> newJobTitle = Some []"
  shows "post_modify env s token newName newJobTitle
           = (Redirect (''/api/status?token='' @ encodeToken env payload), s)
         \<and> decodeToken env (encodeToken env payload) = decodeToken env token
         \<and> get_status env s token
           = (Status ''Token validated successfully'' (name user) (jobTitle user) token, s)"
proof -
  from assms(2) have s: "s = before @ user # after"
    and same: "name user = name payload" "password user = password payload"
    by (simp_all add: findOne_Some_iff)
  from same have p: "\<lparr>name = name user, password = password user\<rparr> = payload"
    by simp
  from assms(4,5) have "post_modify env s token newName newJobTitle
      = (Redirect (''/api/status?token='' @ encodeToken env payload), s)"
    using assms(1,2,3) s p by (auto simp add: post_modify_def save_def)
  moreover have "decodeToken env (encodeToken env payload) = decodeToken env token"
    using assms(1) by (simp add: decode_encode)
  moreover have "get_status env s token
      = (Status ''Token validated successfully'' (name user) (jobTitle user) token, s)"
    using assms(1,2) by (simp add: get_status_def)
  ultimately show ?thesis by simp
qed

theorem post_modify_nothing_provided_witness:
  "decodeToken example_env (encodeToken example_env \<lparr>name = ''alice'', password = ''pw1''\<rparr>)
     = Inr \<lparr>name = ''alice'', password = ''pw1''\<rparr>
   \<and> validate alice
   \<and> post_modify example_env [alice] (encodeToken example_env \<lparr>name = ''alice'', password = ''pw1''\<rparr>)
        None (Some [])
     = (Redirect (''/api/status?token='' @ encodeToken example_env \<lparr>name = ''alice'', password = ''pw1''\<rparr>),
        [alice])
   \<and> get_status example_env [alice] (encodeToken example_env \<lparr>name = ''alice'', password = ''pw1''\<rparr>)
     = (Status ''Token validated successfully'' ''alice'' None
         (encodeToken example_env \<lparr>name = ''alice'', password = ''pw1''\<rparr>), [alice])"
proof -
  let ?p = "\<lparr>name = ''alice'', password = ''pw1''\<rparr>"
  have d: "decodeToken example_env (encodeToken example_env ?p) = Inr ?p"
    by (rule decode_encode)
  have f: "findOne (\<lambda>u. name u = name ?p \<and> password u = password ?p) [alice] = Some ([], alice, [])"
    by (simp add: findOne_Some_iff alice_def)
  have v: "validate alice"
    by (simp add: validate_def alice_def)
  have n: "(None :: string option) = None \<or> (None :: string option) = Some []"
    and j: "Some [] = (None :: string option) \<or> Some [] = (Some [] :: string option)"
    by simp_all
  from post_modify_nothing_provided [OF d f v n j] d v show ?thesis
    by (simp add: alice_def)
qed

end
